theory Spec2Isabelle
  imports Main "HOL-Library.AList" "HOL-Library.Multiset"
begin

section \<open>The frontend test runner (scripts/test-frontend.py)\<close>

text \<open>
  The script runs nine shell commands one after the other through \<^verbatim>\<open>run_command\<close>,
  stores the boolean each call returns in the dictionary \<^verbatim>\<open>results\<close> under the name
  of the check, prints a summary, and leaves with the value \<^verbatim>\<open>main\<close> returns.

  The only effects are the call of \<^verbatim>\<open>subprocess.run\<close> and the calls of
  \<^verbatim>\<open>print\<close>. The first is a parameter of the model: a function that, given the command
  and the state of the outside world, yields what \<^verbatim>\<open>subprocess.run\<close> does there (it
  returns a completed process or raises) together with the world afterwards. The second
  is a log: every \<^verbatim>\<open>print\<close> appends its text to the console, and a write to the console
  is taken to succeed.

  The module-level \<^verbatim>\<open>os.chdir(PROJECT_ROOT)\<close> runs once before \<^verbatim>\<open>main\<close>; the model
  starts at \<^verbatim>\<open>main\<close>, in a world where it has succeeded.
\<close>

subsection \<open>Exceptions\<close>

text \<open>
  The classes \<^verbatim>\<open>subprocess.run\<close> can raise, as far as the two handlers of
  \<^verbatim>\<open>run_command\<close> tell them apart. \<^verbatim>\<open>subprocess.TimeoutExpired\<close> and the
  \<^verbatim>\<open>OSError\<close> family derive from \<^verbatim>\<open>Exception\<close>; \<^verbatim>\<open>KeyboardInterrupt\<close> and
  \<^verbatim>\<open>SystemExit\<close> derive from \<^verbatim>\<open>BaseException\<close> only.
\<close>

datatype exc_class =
    TimeoutExpired
  | FileNotFoundError
  | NotADirectoryError
  | PermissionError
  | OSError
  | UnicodeDecodeError
  | ValueError
  | MemoryError
  | OtherException string
  | KeyboardInterrupt
  | SystemExit
  | OtherBaseException string

datatype py_exception = PyException (exc_class: exc_class) (message: string)

text \<open>\<^verbatim>\<open>isinstance(e, subprocess.TimeoutExpired)\<close> and \<^verbatim>\<open>isinstance(e, Exception)\<close>.\<close>

fun isinstance_TimeoutExpired :: "exc_class \<Rightarrow> bool" where
  "isinstance_TimeoutExpired TimeoutExpired = True"
| "isinstance_TimeoutExpired _ = False"

fun isinstance_Exception :: "exc_class \<Rightarrow> bool" where
  "isinstance_Exception KeyboardInterrupt = False"
| "isinstance_Exception SystemExit = False"
| "isinstance_Exception (OtherBaseException _) = False"
| "isinstance_Exception _ = True"

subsection \<open>The subprocess and the console\<close>

record completed_process =
  returncode :: int
  stdout :: string
  stderr :: string

datatype run_result = Returned completed_process | Raised py_exception

text \<open>
  \<^verbatim>\<open>subprocess.run(cmd, shell=True, capture_output=True, text=True, timeout=60)\<close>
  in the world \<open>w\<close>.
\<close>

type_synonym 'w subprocess_run = "string \<Rightarrow> 'w \<Rightarrow> run_result \<times> 'w"

datatype stream = Stdout | Stderr

type_synonym console = "(stream \<times> string) list"

text \<open>The state threaded through the script: the outside world and what was printed.\<close>

type_synonym 'w state = "'w \<times> console"

definition print :: "string \<Rightarrow> 'w state \<Rightarrow> 'w state" where
  "print s st = (fst st, snd st @ [(Stdout, s)])"

definition print_stderr :: "string \<Rightarrow> 'w state \<Rightarrow> 'w state" where
  "print_stderr s st = (fst st, snd st @ [(Stderr, s)])"

definition newline :: string where
  "newline = [CHR 0x0A]"

definition rule60 :: string where
  "rule60 = replicate 60 (CHR ''='')"

subsection \<open>run_command\<close>

text \<open>
  The result is \<open>Inr b\<close> when the function returns \<open>b\<close> and \<open>Inl e\<close> when the
  exception \<open>e\<close> leaves it.
\<close>

definition run_command ::
  "'w subprocess_run \<Rightarrow> string \<Rightarrow> string \<Rightarrow> 'w state \<Rightarrow> (py_exception + bool) \<times> 'w state" where
  "run_command run cmd description st =
     (let st1 = print (newline @ rule60) st;
          st2 = print (''[TEST] '' @ description) st1;
          st3 = print rule60 st2
      in case run cmd (fst st3) of
           (Returned result, w) \<Rightarrow>
             (let st4 = (if stdout result \<noteq> [] then print (stdout result) (w, snd st3)
                         else (w, snd st3));
                  st5 = (if stderr result \<noteq> [] then print_stderr (stderr result) st4 else st4)
              in (Inr (returncode result = 0), st5))
         | (Raised e, w) \<Rightarrow>
             if isinstance_TimeoutExpired (exc_class e)
             then (Inr False, print ''ERROR: Command timed out'' (w, snd st3))
             else if isinstance_Exception (exc_class e)
             then (Inr False, print (''ERROR: '' @ message e) (w, snd st3))
             else (Inl e, (w, snd st3)))"

subsection \<open>The checks of main\<close>

text \<open>
  \<^verbatim>\<open>results\<close> is a dictionary from the name of a check to a boolean. A Python
  dictionary keeps its keys in the order of their first insertion, and an assignment to a
  key that is there replaces the value in place: this is \<open>AList.update\<close> on an
  association list.
\<close>

type_synonym results = "(string \<times> bool) list"

text \<open>
  One statement \<^verbatim>\<open>results[key] = run_command(cmd, description)\<close>. The first component
  of the argument is \<open>Inl e\<close> when an earlier statement has let the exception \<open>e\<close>
  escape (then this one is never reached), and \<open>Inr results\<close> otherwise.
\<close>

fun check ::
  "'w subprocess_run \<Rightarrow> string \<Rightarrow> string \<Rightarrow> string \<Rightarrow>
   (py_exception + results) \<times> 'w state \<Rightarrow> (py_exception + results) \<times> 'w state" where
  "check run key cmd description (Inl e, st) = (Inl e, st)"
| "check run key cmd description (Inr results, st) =
     (case run_command run cmd description st of
        (Inl e, st') \<Rightarrow> (Inl e, st')
      | (Inr v, st') \<Rightarrow> (Inr (AList.update key v results), st'))"

text \<open>The two marks of the script, U+2713 and U+2717, in UTF-8.\<close>

definition check_mark :: string where
  "check_mark = [CHR 0xE2, CHR 0x9C, CHR 0x93]"

definition cross_mark :: string where
  "cross_mark = [CHR 0xE2, CHR 0x9C, CHR 0x97]"

subsection \<open>The summary\<close>

text \<open>\<^verbatim>\<open>str\<close> of a natural number, as the f-string of the tally line formats it.\<close>

fun str_nat :: "nat \<Rightarrow> string" where
  "str_nat n =
     (if n < 10 then [''0123456789'' ! n]
      else str_nat (n div 10) @ [''0123456789'' ! (n mod 10)])"

text \<open>\<^verbatim>\<open>sum(1 for v in results.values() if v)\<close> and \<^verbatim>\<open>len(results)\<close>.\<close>

definition passed :: "results \<Rightarrow> nat" where
  "passed results = length (filter (\<lambda>v. v) (map snd results))"

definition total_count :: "results \<Rightarrow> nat" where
  "total_count results = length results"

text \<open>The loop over \<^verbatim>\<open>results.items()\<close> that prints one line for each entry.\<close>

fun print_items :: "results \<Rightarrow> 'w state \<Rightarrow> 'w state" where
  "print_items [] st = st"
| "print_items ((test_name, result) # items) st =
     print_items items
       (print ((if result then check_mark @ '' PASS'' else cross_mark @ '' FAIL'')
                 @ '' - '' @ test_name) st)"

text \<open>Lines 103 to 122 of the script: from the summary banner to the value returned.\<close>

definition summary :: "results \<Rightarrow> 'w state \<Rightarrow> int \<times> 'w state" where
  "summary results st =
     (let st1 = print (newline @ rule60) st;
          st2 = print ''TEST SUMMARY'' st1;
          st3 = print rule60 st2;
          st4 = print_items results st3;
          st5 = print (newline @ ''Total: '' @ str_nat (passed results) @ ''/''
                         @ str_nat (total_count results) @ '' tests passed'') st4
      in if passed results = total_count results
         then (0, print (newline @ check_mark
                           @ '' FRONTEND BUILD SUCCESSFUL - Ready for deployment'') st5)
         else (1, print (newline @ cross_mark
                           @ '' Some tests failed - Check output above'') st5))"

subsection \<open>main\<close>

text \<open>
  The result is \<open>Inr code\<close> when \<^verbatim>\<open>main\<close> returns \<open>code\<close>, and \<open>Inl e\<close> when
  an exception that \<^verbatim>\<open>run_command\<close> has not caught leaves \<^verbatim>\<open>main\<close>.
\<close>

definition main :: "'w subprocess_run \<Rightarrow> 'w state \<Rightarrow> (py_exception + int) \<times> 'w state" where
  \<open>main run st =
     (let st1 = print (newline @ rule60) st;
          st2 = print ''OLIVE AI - FRONTEND TEST SUITE'' st1;
          st3 = print rule60 st2;
          r0 = (Inr [], st3);
          r1 = check run ''node_check''
                 ''node --version && npm --version''
                 ''Checking Node.js and npm installation'' r0;
          r2 = check run ''project_structure''
                 ''ls -la | grep -E "package.json|tsconfig.json|tailwind.config|next.config"''
                 ''Checking project structure'' r1;
          r3 = check run ''env_check''
                 (''test -f .env.local && echo "'' @ check_mark @ '' .env.local found" || echo "''
                    @ cross_mark @ '' .env.local missing"'')
                 ''Verifying environment configuration'' r2;
          r4 = check run ''deps_check''
                 ''npm list --depth=0 2>/dev/null | head -20''
                 ''Checking installed dependencies'' r3;
          r5 = check run ''lint''
                 ''npm run lint 2>&1 | head -50''
                 ''Running ESLint'' r4;
          r6 = check run ''build''
                 ''npm run build 2>&1 | tail -50''
                 ''Building Next.js project'' r5;
          r7 = check run ''build_output''
                 (''test -d .next && echo "'' @ check_mark
                    @ '' .next build directory created" || echo "''
                    @ cross_mark @ '' Build directory missing"'')
                 ''Verifying build output'' r6;
          r8 = check run ''api_services''
                 (''ls -la services/api/ | grep -E "'' @ [CHR 0x5C] @ ''.ts$"'')
                 ''Checking API service files'' r7;
          r9 = check run ''types_check''
                 (''test -f types/api.ts && wc -l types/api.ts && echo "'' @ check_mark
                    @ '' API types file valid" || echo "'' @ cross_mark @ '' Types file missing"'')
                 ''Validating TypeScript types'' r8
      in case r9 of
           (Inl e, st') \<Rightarrow> (Inl e, st')
         | (Inr results, st') \<Rightarrow> (case summary results st' of (code, st'') \<Rightarrow> (Inr code, st'')))\<close>

text \<open>
  \<^verbatim>\<open>sys.exit(main())\<close>: the process ends with the code \<^verbatim>\<open>main\<close> returns, or with
  the traceback of the exception that left it.
\<close>

datatype process_end = Exit int | Traceback py_exception

definition script :: "'w subprocess_run \<Rightarrow> 'w state \<Rightarrow> process_end \<times> 'w state" where
  "script run st =
     (case main run st of
        (Inl e, st') \<Rightarrow> (Traceback e, st')
      | (Inr code, st') \<Rightarrow> (Exit code, st'))"

subsection \<open>The driver over a list of declared checks\<close>

text \<open>
  \<^verbatim>\<open>main\<close> is the same statement nine times. The properties of a sequence of checks
  of any length are stated on \<open>driver\<close>, which runs that statement once for every
  entry (name, command, description) of a list; \<open>main\<close> is \<open>driver\<close> at the nine
  checks of the script (lemma \<open>main_driver\<close> below).
\<close>

type_synonym declared_check = "string \<times> string \<times> string"

fun run_checks ::
  "'w subprocess_run \<Rightarrow> declared_check list \<Rightarrow>
   (py_exception + results) \<times> 'w state \<Rightarrow> (py_exception + results) \<times> 'w state" where
  "run_checks run [] acc = acc"
| "run_checks run ((key, cmd, description) # checks) acc =
     run_checks run checks (check run key cmd description acc)"

definition banner :: "'w state \<Rightarrow> 'w state" where
  "banner st =
     print rule60 (print ''OLIVE AI - FRONTEND TEST SUITE'' (print (newline @ rule60) st))"

definition collect ::
  "'w subprocess_run \<Rightarrow> declared_check list \<Rightarrow> 'w state \<Rightarrow> (py_exception + results) \<times> 'w state" where
  "collect run checks st = run_checks run checks (Inr [], banner st)"

text \<open>What follows the last check: the exception travels on, or the summary is printed.\<close>

definition finish :: "(py_exception + results) \<times> 'w state \<Rightarrow> (py_exception + int) \<times> 'w state" where
  "finish r =
     (case r of
        (Inl e, st') \<Rightarrow> (Inl e, st')
      | (Inr results, st') \<Rightarrow> (case summary results st' of (code, st'') \<Rightarrow> (Inr code, st'')))"

definition driver ::
  "'w subprocess_run \<Rightarrow> declared_check list \<Rightarrow> 'w state \<Rightarrow> (py_exception + int) \<times> 'w state" where
  "driver run checks st = finish (collect run checks st)"

definition declared_checks :: "declared_check list" where
  \<open>declared_checks =
     [(''node_check'',
       ''node --version && npm --version'',
       ''Checking Node.js and npm installation''),
      (''project_structure'',
       ''ls -la | grep -E "package.json|tsconfig.json|tailwind.config|next.config"'',
       ''Checking project structure''),
      (''env_check'',
       ''test -f .env.local && echo "'' @ check_mark @ '' .env.local found" || echo "''
          @ cross_mark @ '' .env.local missing"'',
       ''Verifying environment configuration''),
      (''deps_check'',
       ''npm list --depth=0 2>/dev/null | head -20'',
       ''Checking installed dependencies''),
      (''lint'',
       ''npm run lint 2>&1 | head -50'',
       ''Running ESLint''),
      (''build'',
       ''npm run build 2>&1 | tail -50'',
       ''Building Next.js project''),
      (''build_output'',
       ''test -d .next && echo "'' @ check_mark @ '' .next build directory created" || echo "''
          @ cross_mark @ '' Build directory missing"'',
       ''Verifying build output''),
      (''api_services'',
       ''ls -la services/api/ | grep -E "'' @ [CHR 0x5C] @ ''.ts$"'',
       ''Checking API service files''),
      (''types_check'',
       ''test -f types/api.ts && wc -l types/api.ts && echo "'' @ check_mark
          @ '' API types file valid" || echo "'' @ cross_mark @ '' Types file missing"'',
       ''Validating TypeScript types'')]\<close>


subsection \<open>Notions used in the statements\<close>

text \<open>
  An executor that raises nothing but instances of \<^verbatim>\<open>Exception\<close>: no
  \<^verbatim>\<open>KeyboardInterrupt\<close> or \<^verbatim>\<open>SystemExit\<close> arrives while a command runs.
\<close>

definition raises_only_Exception :: "'w subprocess_run \<Rightarrow> bool" where
  "raises_only_Exception run \<longleftrightarrow>
     (\<forall>cmd w e. fst (run cmd w) = Raised e \<longrightarrow> isinstance_Exception (exc_class e))"


subsection \<open>Executors for the examples\<close>

text \<open>
  The world is the number of commands run so far. The second command exits with status
  1, the fourth runs into the timeout, the sixth cannot be started, every other one exits
  with status 0.
\<close>

definition demo_run :: "nat subprocess_run" where
  "demo_run cmd n =
     ((if n = 1 then Returned \<lparr>returncode = 1, stdout = [], stderr = ''boom''\<rparr>
       else if n = 3 then Raised (PyException TimeoutExpired ''timed out after 60 seconds'')
       else if n = 5 then Raised (PyException FileNotFoundError ''No such file or directory'')
       else Returned \<lparr>returncode = 0, stdout = ''ok'', stderr = []\<rparr>), Suc n)"

text \<open>The second command is interrupted from the keyboard.\<close>

definition interrupted_run :: "nat subprocess_run" where
  "interrupted_run cmd n =
     ((if n = 1 then Raised (PyException KeyboardInterrupt [])
       else Returned \<lparr>returncode = 0, stdout = ''ok'', stderr = []\<rparr>), Suc n)"

text \<open>Every command exits with status 0 and writes alarming text to both streams.\<close>

definition noisy_run :: "nat subprocess_run" where
  "noisy_run cmd n =
     (Returned \<lparr>returncode = 0, stdout = ''ERROR: Command timed out'',
                stderr = ''npm ERR! code ELIFECYCLE''\<rparr>, Suc n)"

section \<open>Properties\<close>

subsection \<open>main is the driver at the nine checks\<close>

lemma main_driver: "main run st = driver run declared_checks st"
  by (simp add: main_def driver_def finish_def collect_def banner_def declared_checks_def Let_def)

lemma declared_checks_distinct: "distinct (map fst declared_checks)"
  by (simp add: declared_checks_def)

subsection \<open>The console\<close>

lemma fst_print [simp]: "fst (print s st) = fst st"
  by (simp add: print_def)

lemma snd_print [simp]: "snd (print s st) = snd st @ [(Stdout, s)]"
  by (simp add: print_def)

lemma fst_print_stderr [simp]: "fst (print_stderr s st) = fst st"
  by (simp add: print_stderr_def)

subsection \<open>What run_command returns\<close>

lemma TimeoutExpired_is_Exception:
  "isinstance_TimeoutExpired c \<Longrightarrow> isinstance_Exception c"
  by (cases c) simp_all

lemma fst_run_command:
  "fst (run_command run cmd description st) =
     (case fst (run cmd (fst st)) of
        Returned result \<Rightarrow> Inr (returncode result = 0)
      | Raised e \<Rightarrow> if isinstance_Exception (exc_class e) then Inr False else Inl e)"
  by (auto simp: run_command_def Let_def split: prod.splits run_result.splits
           dest: TimeoutExpired_is_Exception)

lemma run_command_Raised:
  assumes "fst (run cmd (fst st)) = Raised e"
  shows "run_command run cmd description st =
     (if isinstance_TimeoutExpired (exc_class e)
      then (Inr False, print ''ERROR: Command timed out''
              (snd (run cmd (fst st)), snd st @ [(Stdout, newline @ rule60),
                 (Stdout, ''[TEST] '' @ description), (Stdout, rule60)]))
      else if isinstance_Exception (exc_class e)
      then (Inr False, print (''ERROR: '' @ message e)
              (snd (run cmd (fst st)), snd st @ [(Stdout, newline @ rule60),
                 (Stdout, ''[TEST] '' @ description), (Stdout, rule60)]))
      else (Inl e, (snd (run cmd (fst st)), snd st @ [(Stdout, newline @ rule60),
                 (Stdout, ''[TEST] '' @ description), (Stdout, rule60)])))"
  using assms by (cases "run cmd (fst st)") (simp add: run_command_def Let_def)

lemma run_command_yields_bool:
  assumes "raises_only_Exception run"
  shows "\<exists>b st'. run_command run cmd description st = (Inr b, st')"
proof -
  have "\<exists>b. fst (run_command run cmd description st) = Inr b"
    using assms unfolding raises_only_Exception_def fst_run_command
    by (auto split: run_result.splits)
  then show ?thesis
    by (metis prod.collapse)
qed

lemma demo_run_ok: "raises_only_Exception demo_run"
  by (auto simp: raises_only_Exception_def demo_run_def split: if_splits)

subsection \<open>The loop over the checks\<close>

lemma run_checks_Inl [simp]: "run_checks run checks (Inl e, st) = (Inl e, st)"
  by (induction checks) auto

lemma run_checks_append:
  "run_checks run (xs @ ys) acc = run_checks run ys (run_checks run xs acc)"
  by (induction run xs acc rule: run_checks.induct) simp_all

lemma run_checks_returns:
  assumes "raises_only_Exception run"
  shows "\<exists>results' st'. run_checks run checks (Inr results, st) = (Inr results', st')"
proof (induction checks arbitrary: results st)
  case Nil
  show ?case by simp
next
  case (Cons c checks)
  obtain key cmd description where c: "c = (key, cmd, description)"
    by (cases c) auto
  obtain b st1 where "run_command run cmd description st = (Inr b, st1)"
    using run_command_yields_bool [OF assms] by blast
  then show ?case
    using Cons.IH [of "AList.update key b results" st1] by (simp add: c)
qed

text \<open>With names that are new and differ from each other, every check adds one entry.\<close>

lemma run_checks_keys:
  assumes "run_checks run checks (Inr results, st) = (Inr results', st')"
    and "distinct (map fst results @ map fst checks)"
  shows "map fst results' = map fst results @ map fst checks"
  using assms
proof (induction checks arbitrary: results st)
  case Nil
  then show ?case by simp
next
  case (Cons c checks)
  obtain key cmd description where c: "c = (key, cmd, description)"
    by (cases c) auto
  obtain r st1 where rc: "run_command run cmd description st = (r, st1)"
    by (cases "run_command run cmd description st") auto
  show ?case
  proof (cases r)
    case (Inl e)
    with rc Cons.prems(1) show ?thesis by (simp add: c)
  next
    case (Inr b)
    have "key \<notin> set (map fst results)"
      using Cons.prems(2) by (auto simp: c)
    then have keys: "map fst (AList.update key b results) = map fst results @ [key]"
      by (simp add: update_keys)
    have "run_checks run checks (Inr (AList.update key b results), st1) = (Inr results', st')"
      using Cons.prems(1) rc Inr by (simp add: c)
    moreover have "distinct (map fst (AList.update key b results) @ map fst checks)"
      using Cons.prems(2) by (auto simp: keys c)
    ultimately have "map fst results' = map fst (AList.update key b results) @ map fst checks"
      by (rule Cons.IH)
    then show ?thesis by (simp add: keys c)
  qed
qed

lemma collect_returns:
  assumes "raises_only_Exception run" and "distinct (map fst checks)"
  shows "\<exists>results st'. collect run checks st = (Inr results, st')
           \<and> map fst results = map fst checks"
proof -
  obtain results st' where c: "collect run checks st = (Inr results, st')"
    using run_checks_returns [OF assms(1)] unfolding collect_def by blast
  have "map fst results = map fst [] @ map fst checks"
    using run_checks_keys [of run checks "[]" "banner st" results st'] c assms(2)
    by (simp add: collect_def)
  with c show ?thesis by simp
qed

lemma collect_continues:
  assumes "collect run pre st0 = (Inr results, st)"
    and "run_command run cmd description st = (Inr b, st')"
  shows "collect run (pre @ (key, cmd, description) # post) st0 =
           run_checks run post (Inr (AList.update key b results), st')"
  using assms by (simp add: collect_def run_checks_append)

subsection \<open>The summary\<close>

lemma passed_eq_total: "passed results = total_count results \<longleftrightarrow> (\<forall>v\<in>snd ` set results. v)"
proof -
  have "length (filter (\<lambda>v. v) (map snd results)) = length (map snd results)
          \<longleftrightarrow> (\<forall>v\<in>set (map snd results). v)"
    by (metis filter_id_conv length_filter_less less_irrefl)
  then show ?thesis by (simp add: passed_def total_count_def)
qed

lemma all_values_iff:
  assumes "distinct (map fst results)"
  shows "(\<forall>v\<in>snd ` set results. v) \<longleftrightarrow>
         (\<forall>key\<in>set (map fst results). map_of results key = Some True)"
proof
  assume all: "\<forall>v\<in>snd ` set results. v"
  show "\<forall>key\<in>set (map fst results). map_of results key = Some True"
  proof
    fix key
    assume "key \<in> set (map fst results)"
    then obtain v where kv: "(key, v) \<in> set results"
      by auto
    then have "v"
      using all by force
    with kv show "map_of results key = Some True"
      using assms by simp
  qed
next
  assume all: "\<forall>key\<in>set (map fst results). map_of results key = Some True"
  show "\<forall>v\<in>snd ` set results. v"
  proof
    fix v
    assume "v \<in> snd ` set results"
    then obtain key where kv: "(key, v) \<in> set results"
      by auto
    then have "map_of results key = Some v"
      using assms by simp
    moreover have "map_of results key = Some True"
      using all kv by force
    ultimately show "v" by simp
  qed
qed

lemma fst_summary: "fst (summary results st) = (if passed results = total_count results then 0 else 1)"
  by (simp add: summary_def Let_def)



lemma driver_returns:
  assumes "raises_only_Exception run"
  shows "\<exists>code st'. driver run checks st = (Inr code, st')"
proof -
  obtain results st1 where "collect run checks st = (Inr results, st1)"
    using run_checks_returns [OF assms] unfolding collect_def by blast
  then show ?thesis
    by (cases "summary results st1") (simp add: driver_def finish_def)
qed

lemma script_collect:
  assumes "collect run declared_checks st = (Inr results, st')"
  shows "fst (script run st) = Exit (fst (summary results st'))"
  using assms by (simp add: script_def main_driver driver_def finish_def split: prod.splits)

lemma script_Exit:
  assumes "fst (script run st) = Exit code"
  shows "\<exists>results st'. collect run declared_checks st = (Inr results, st')"
proof -
  obtain r st' where c: "collect run declared_checks st = (r, st')"
    by (cases "collect run declared_checks st") auto
  show ?thesis
  proof (cases r)
    case (Inl e)
    with c assms show ?thesis
      by (simp add: script_def main_driver driver_def finish_def)
  next
    case (Inr results)
    with c show ?thesis by simp
  qed
qed

section \<open>The claims\<close>

subsection \<open>C1: the exit code\<close>

text \<open>
  Claim C1. The process ends with exit code 0 if and only if every one of the nine
  declared checks passed, and with exit code 1 otherwise, whatever the assignment of pass
  and fail to the checks. Here \<open>results\<close> is the dictionary after the last check, the
  assignment of an outcome to every check. First conjunct: the exit code is 0 exactly when
  the nine checks have run and each is recorded as passed. Second: for every assignment
  the run ends with, the exit code is 0 when all the checks passed and 1 otherwise. Third:
  there is such an assignment in every run in which no command is interrupted.
\<close>

theorem exit_code_zero_iff_all_passed:
  "(fst (script run st) = Exit 0 \<longleftrightarrow>
      (\<exists>results st'. collect run declared_checks st = (Inr results, st')
         \<and> (\<forall>key\<in>set (map fst declared_checks). map_of results key = Some True)))
   \<and> (\<forall>results st'. collect run declared_checks st = (Inr results, st') \<longrightarrow>
         map fst results = map fst declared_checks
         \<and> fst (script run st) =
             Exit (if \<forall>key\<in>set (map fst declared_checks). map_of results key = Some True
                   then 0 else 1))
   \<and> (raises_only_Exception run \<longrightarrow>
         (\<exists>results st'. collect run declared_checks st = (Inr results, st')))"
proof -
  have every: "map fst results = map fst declared_checks
         \<and> fst (script run st) =
             Exit (if \<forall>key\<in>set (map fst declared_checks). map_of results key = Some True
                   then 0 else 1)"
    if c: "collect run declared_checks st = (Inr results, st')" for results st'
  proof -
    have keys: "map fst results = map fst [] @ map fst declared_checks"
      using run_checks_keys [of run declared_checks "[]" "banner st" results st'] c
        declared_checks_distinct
      by (simp add: collect_def)
    then have "distinct (map fst results)"
      by (simp add: declared_checks_distinct)
    then have "passed results = total_count results \<longleftrightarrow>
        (\<forall>key\<in>set (map fst declared_checks). map_of results key = Some True)"
      using all_values_iff [of results] keys by (simp only: passed_eq_total append_Nil list.map)
    then show ?thesis
      using keys by (simp add: script_collect [OF c] fst_summary)
  qed
  have zero: "fst (script run st) = Exit 0 \<longleftrightarrow>
      (\<exists>results st'. collect run declared_checks st = (Inr results, st')
         \<and> (\<forall>key\<in>set (map fst declared_checks). map_of results key = Some True))"
  proof
    assume e: "fst (script run st) = Exit 0"
    then obtain results st' where c: "collect run declared_checks st = (Inr results, st')"
      using script_Exit by blast
    have "\<forall>key\<in>set (map fst declared_checks). map_of results key = Some True"
    proof (rule ccontr)
      assume "\<not> (\<forall>key\<in>set (map fst declared_checks). map_of results key = Some True)"
      then have "fst (script run st) = Exit 1"
        using every [OF c] by simp
      with e show False by simp
    qed
    with c show "\<exists>results st'. collect run declared_checks st = (Inr results, st')
         \<and> (\<forall>key\<in>set (map fst declared_checks). map_of results key = Some True)"
      by blast
  next
    assume "\<exists>results st'. collect run declared_checks st = (Inr results, st')
         \<and> (\<forall>key\<in>set (map fst declared_checks). map_of results key = Some True)"
    then obtain results st' where c: "collect run declared_checks st = (Inr results, st')"
      and a: "\<forall>key\<in>set (map fst declared_checks). map_of results key = Some True"
      by blast
    show "fst (script run st) = Exit 0"
      using every [OF c] a by simp
  qed
  have "\<exists>results st'. collect run declared_checks st = (Inr results, st')"
    if "raises_only_Exception run"
    using collect_returns [OF that declared_checks_distinct] by blast
  with zero every show ?thesis by blast
qed

lemma demo_results:
  "fst (collect demo_run declared_checks (0, [])) =
     Inr [(''node_check'', True), (''project_structure'', False), (''env_check'', True),
          (''deps_check'', False), (''lint'', True), (''build'', False),
          (''build_output'', True), (''api_services'', True), (''types_check'', True)]"
  by (simp add: collect_def banner_def declared_checks_def run_command_def demo_run_def
        Let_def print_def print_stderr_def)

lemma noisy_results:
  "fst (collect noisy_run declared_checks (0, [])) =
     Inr [(''node_check'', True), (''project_structure'', True), (''env_check'', True),
          (''deps_check'', True), (''lint'', True), (''build'', True),
          (''build_output'', True), (''api_services'', True), (''types_check'', True)]"
  by (simp add: collect_def banner_def declared_checks_def run_command_def noisy_run_def
        Let_def print_def print_stderr_def)

text \<open>
  Two runs of the script: one in which three checks fail, and one in which every check
  passes.
\<close>

theorem exit_code_zero_iff_all_passed_witness:
  "fst (script demo_run (0, [])) = Exit 1 \<and> fst (script noisy_run (0, [])) = Exit 0"
proof -
  obtain results st' where c: "collect demo_run declared_checks (0, []) = (Inr results, st')"
    using exit_code_zero_iff_all_passed [of demo_run "(0, [])"] demo_run_ok by blast
  then have e: "fst (script demo_run (0, [])) =
             Exit (if \<forall>key\<in>set (map fst declared_checks). map_of results key = Some True
                   then 0 else 1)"
    using exit_code_zero_iff_all_passed [of demo_run "(0, [])"] by blast
  have "map_of results ''build'' = Some False"
    using c demo_results by simp
  then have "\<not> (\<forall>key\<in>set (map fst declared_checks). map_of results key = Some True)"
    by (auto simp: declared_checks_def)
  with e have one: "fst (script demo_run (0, [])) = Exit 1"
    by simp
  obtain results' st'' where c': "collect noisy_run declared_checks (0, []) = (Inr results', st'')"
    using noisy_results by (cases "collect noisy_run declared_checks (0, [])") auto
  then have "results' = [(''node_check'', True), (''project_structure'', True),
          (''env_check'', True), (''deps_check'', True), (''lint'', True), (''build'', True),
          (''build_output'', True), (''api_services'', True), (''types_check'', True)]"
    using noisy_results by simp
  then have "\<forall>key\<in>set (map fst declared_checks). map_of results' key = Some True"
    by (simp add: declared_checks_def)
  with c' have "fst (script noisy_run (0, [])) = Exit 0"
    using exit_code_zero_iff_all_passed [of noisy_run "(0, [])"] by blast
  with one show ?thesis by simp
qed

subsection \<open>C2: exit status zero means passed\<close>



subsection \<open>C3: a timeout\<close>

text \<open>
  Claim C3. When the command of a check runs into the timeout, \<^verbatim>\<open>run_command\<close>
  catches \<^verbatim>\<open>TimeoutExpired\<close>, prints the timeout error and returns False; the check is
  recorded as failed and the driver goes on with every check declared after it, from the
  state the timeout left, and then prints the summary. The hypothesis on \<open>pre\<close> says
  that the run has reached the check. When no command is interrupted the driver returns an
  exit code.
\<close>

theorem timeout_recorded_failed_run_continues:
  assumes "collect run pre st0 = (Inr results, st)"
    and "fst (run cmd (fst st)) = Raised e"
    and "isinstance_TimeoutExpired (exc_class e)"
  shows "\<exists>st'. run_command run cmd description st = (Inr False, st')
           \<and> (Stdout, ''ERROR: Command timed out'') \<in> set (snd st')
           \<and> collect run (pre @ [(key, cmd, description)]) st0 =
               (Inr (AList.update key False results), st')
           \<and> driver run (pre @ (key, cmd, description) # post) st0 =
               finish (run_checks run post (Inr (AList.update key False results), st'))
           \<and> (raises_only_Exception run \<longrightarrow>
                 (\<exists>code st''. driver run (pre @ (key, cmd, description) # post) st0
                    = (Inr code, st'')))"
proof -
  let ?st' = "print ''ERROR: Command timed out''
              (snd (run cmd (fst st)), snd st @ [(Stdout, newline @ rule60),
                 (Stdout, ''[TEST] '' @ description), (Stdout, rule60)])"
  have rc: "run_command run cmd description st = (Inr False, ?st')"
    using run_command_Raised [of run cmd st e description] assms(2,3) by simp
  have "(Stdout, ''ERROR: Command timed out'') \<in> set (snd ?st')"
    by simp
  moreover have "collect run (pre @ [(key, cmd, description)]) st0 =
               (Inr (AList.update key False results), ?st')"
    using collect_continues [OF assms(1) rc, of key "[]"] by simp
  moreover have "driver run (pre @ (key, cmd, description) # post) st0 =
               finish (run_checks run post (Inr (AList.update key False results), ?st'))"
    using collect_continues [OF assms(1) rc] by (simp add: driver_def)
  moreover have "raises_only_Exception run \<longrightarrow>
                 (\<exists>code st''. driver run (pre @ (key, cmd, description) # post) st0
                    = (Inr code, st''))"
    using driver_returns by blast
  ultimately show ?thesis
    using rc by blast
qed

text \<open>
  Two checks, the first of which times out: it is recorded as failed, the second one runs
  and passes, and the driver returns 1.
\<close>

theorem timeout_recorded_failed_run_continues_witness:
  "collect demo_run [] (3, []) = (Inr [], banner (3, []))
   \<and> fst (demo_run ''npm run build'' (fst (banner (3::nat, [])))) =
        Raised (PyException TimeoutExpired ''timed out after 60 seconds'')
   \<and> isinstance_TimeoutExpired (exc_class (PyException TimeoutExpired ''timed out after 60 seconds''))
   \<and> fst (run_command demo_run ''npm run build'' ''Building'' (banner (3, []))) = Inr False
   \<and> fst (collect demo_run [(''build'', ''npm run build'', ''Building''),
                             (''build_output'', ''test -d .next'', ''Verifying'')] (3, []))
        = Inr [(''build'', False), (''build_output'', True)]
   \<and> fst (driver demo_run [(''build'', ''npm run build'', ''Building''),
                            (''build_output'', ''test -d .next'', ''Verifying'')] (3, []))
        = Inr 1"
proof -
  have h1: "collect demo_run [] (3, []) = (Inr [], banner (3, []))"
    by (simp add: collect_def)
  have h2: "fst (demo_run ''npm run build'' (fst (banner (3::nat, [])))) =
        Raised (PyException TimeoutExpired ''timed out after 60 seconds'')"
    by (simp add: banner_def demo_run_def)
  have h3: "isinstance_TimeoutExpired (exc_class (PyException TimeoutExpired ''timed out after 60 seconds''))"
    by simp
  obtain st' where rc: "run_command demo_run ''npm run build'' ''Building'' (banner (3, []))
                          = (Inr False, st')"
    and d: "driver demo_run ([] @ (''build'', ''npm run build'', ''Building'')
                # [(''build_output'', ''test -d .next'', ''Verifying'')]) (3, []) =
              finish (run_checks demo_run [(''build_output'', ''test -d .next'', ''Verifying'')]
                (Inr (AList.update ''build'' False []), st'))"
    using timeout_recorded_failed_run_continues
            [of demo_run "[]" "(3, [])" "[]" "banner (3, [])" "''npm run build''"
                "PyException TimeoutExpired ''timed out after 60 seconds''" "''Building''"
                "''build''" "[(''build_output'', ''test -d .next'', ''Verifying'')]", OF h1 h2 h3]
    by blast
  have c: "fst (collect demo_run [(''build'', ''npm run build'', ''Building''),
                             (''build_output'', ''test -d .next'', ''Verifying'')] (3, []))
        = Inr [(''build'', False), (''build_output'', True)]"
    by (simp add: collect_def banner_def run_command_def demo_run_def Let_def print_def
          print_stderr_def)
  have "fst (driver demo_run [(''build'', ''npm run build'', ''Building''),
                            (''build_output'', ''test -d .next'', ''Verifying'')] (3, []))
        = Inr 1"
    by (simp add: driver_def finish_def summary_def passed_def total_count_def collect_def
          banner_def run_command_def demo_run_def Let_def print_def print_stderr_def)
  with h1 h2 h3 rc c show ?thesis by simp
qed

subsection \<open>C4: the tally\<close>




subsection \<open>C5: which exceptions run_command catches\<close>

text \<open>
  Claim C5, as amended. \<^verbatim>\<open>run_command\<close> returns True or False exactly when
  \<^verbatim>\<open>subprocess.run\<close> returns or raises an instance of \<^verbatim>\<open>Exception\<close> (the timeout,
  a missing executable, an unusable working directory and every other class derived from
  \<^verbatim>\<open>Exception\<close>): none of these reaches the driver. An exception derived from
  \<^verbatim>\<open>BaseException\<close> only, such as \<^verbatim>\<open>KeyboardInterrupt\<close>, matches neither handler and
  leaves \<^verbatim>\<open>run_command\<close>.
\<close>

theorem run_command_returns_iff_Exception:
  "((\<exists>b. fst (run_command run cmd description st) = Inr b) \<longleftrightarrow>
      (\<forall>e. fst (run cmd (fst st)) = Raised e \<longrightarrow> isinstance_Exception (exc_class e)))
   \<and> (\<forall>e. fst (run_command run cmd description st) = Inl e \<longleftrightarrow>
          fst (run cmd (fst st)) = Raised e \<and> \<not> isinstance_Exception (exc_class e))"
  unfolding fst_run_command by (auto split: run_result.splits)

text \<open>A command that times out, one that cannot be started, and one that exits with 0.\<close>

theorem run_command_returns_iff_Exception_witness:
  "fst (run_command demo_run ''npm run build'' ''Building'' (3, [])) = Inr False
   \<and> fst (run_command demo_run ''npm run build'' ''Building'' (5, [])) = Inr False
   \<and> fst (run_command demo_run ''npm run build'' ''Building'' (0, [])) = Inr True"
proof -
  have h: "\<forall>e. fst (demo_run ''npm run build'' (fst (n, out))) = Raised e
        \<longrightarrow> isinstance_Exception (exc_class e)" for n :: nat and out :: console
    by (auto simp: demo_run_def)
  have "\<exists>b. fst (run_command demo_run ''npm run build'' ''Building'' (n, out)) = Inr b"
    for n :: nat and out :: console
    using run_command_returns_iff_Exception [of demo_run "''npm run build''" "''Building''" "(n, out)"]
      h [of n out] by blast
  then obtain b3 b5 b0 where
    "fst (run_command demo_run ''npm run build'' ''Building'' (3, [])) = Inr b3"
    "fst (run_command demo_run ''npm run build'' ''Building'' (5, [])) = Inr b5"
    "fst (run_command demo_run ''npm run build'' ''Building'' (0, [])) = Inr b0"
    by metis
  moreover have "fst (run_command demo_run ''npm run build'' ''Building'' (3, [])) = Inr False"
    "fst (run_command demo_run ''npm run build'' ''Building'' (5, [])) = Inr False"
    "fst (run_command demo_run ''npm run build'' ''Building'' (0, [])) = Inr True"
    by (simp_all add: fst_run_command demo_run_def)
  ultimately show ?thesis by simp
qed

text \<open>
  The claim as stated, that no exception whatever leaves \<^verbatim>\<open>run_command\<close>, fails when
  the build is interrupted from the keyboard: \<^verbatim>\<open>KeyboardInterrupt\<close> leaves
  \<^verbatim>\<open>run_command\<close>, then \<^verbatim>\<open>main\<close>, and the process ends with its traceback.
\<close>

theorem keyboard_interrupt_propagates_counterexample:
  "fst (run_command interrupted_run ''npm run build 2>&1 | tail -50'' ''Building Next.js project''
          (1, [])) = Inl (PyException KeyboardInterrupt [])
   \<and> fst (script interrupted_run (0, [])) = Traceback (PyException KeyboardInterrupt [])"
  by (simp add: script_def main_def run_command_def interrupted_run_def Let_def print_def
        print_stderr_def)

subsection \<open>C6: a command that cannot be started\<close>



subsection \<open>C7: no checks\<close>

text \<open>
  Claim C7. With no declared check the result collection is empty, the passed count and
  the total are both 0, so the success branch is taken: the driver prints
  ``Total: 0/0 tests passed'' and returns 0.
\<close>

theorem zero_checks_vacuous_success:
  "fst (collect run [] st) = Inr []
   \<and> passed [] = 0 \<and> total_count [] = 0
   \<and> fst (driver run [] st) = Inr 0
   \<and> (Stdout, newline @ ''Total: 0/0 tests passed'') \<in> set (snd (snd (driver run [] st)))"
  by (simp add: collect_def driver_def finish_def summary_def passed_def total_count_def Let_def)

subsection \<open>C8: the order of the results\<close>

text \<open>
  Claim C8. For every sequence of check results and every permutation of it, the summary
  computes the same passed count, the same total and the same exit code.
\<close>

theorem summary_permutation_invariant:
  assumes "mset results = mset results'"
  shows "passed results = passed results' \<and> total_count results = total_count results'
         \<and> fst (summary results st) = fst (summary results' st')"
proof -
  have "mset (filter (\<lambda>v. v) (map snd results)) = mset (filter (\<lambda>v. v) (map snd results'))"
    using assms by simp
  then have p: "passed results = passed results'"
    unfolding passed_def by (rule mset_eq_length)
  have t: "total_count results = total_count results'"
    unfolding total_count_def using assms by (rule mset_eq_length)
  show ?thesis
    by (simp add: fst_summary p t)
qed

text \<open>Three results and a rotation of them: two passed of three, exit code 1, both times.\<close>

theorem summary_permutation_invariant_witness:
  "mset [(''lint'', True), (''build'', False), (''types_check'', True)]
     = mset [(''build'', False), (''types_check'', True), (''lint'', True)]
   \<and> passed [(''lint'', True), (''build'', False), (''types_check'', True)] = 2
   \<and> passed [(''build'', False), (''types_check'', True), (''lint'', True)] = 2
   \<and> fst (summary [(''lint'', True), (''build'', False), (''types_check'', True)] ((), [])) = 1
   \<and> fst (summary [(''build'', False), (''types_check'', True), (''lint'', True)] ((), [])) = 1"
proof -
  have h: "mset [(''lint'', True), (''build'', False), (''types_check'', True)]
     = mset [(''build'', False), (''types_check'', True), (''lint'', True)]"
    by simp
  show ?thesis
    using summary_permutation_invariant [OF h, of "((), [])" "((), [])"] h
    by (simp add: passed_def fst_summary total_count_def)
qed

subsection \<open>C9: the captured output does not matter\<close>



end
